theory Spec2Isabelle
  imports Complex_Main
begin

section \<open>Values, payloads and errors\<close>

text \<open>
  The stream processor of \<^verbatim>\<open>app/services/stream_processor.py\<close> handles messages whose
  value is a dictionary decoded from JSON. A JSON value is modelled by \<open>pyval\<close>, a
  dictionary with string keys at the top level by a map. An \<open>int\<close> or \<open>float\<close> is
  modelled by the number it denotes (Python compares an \<open>int\<close> and a \<open>float\<close> by
  their exact values, so the comparisons below are exact); rounding of float arithmetic
  and the non-finite floats are outside the model. Strings are lists of 8-bit characters.
\<close>

datatype pyval =
    PNone
  | PBool bool
  | PInt int
  | PFloat real
  | PStr string
  | PList "pyval list"
  | PDict "(string \<times> pyval) list"

type_synonym payload = "string \<rightharpoonup> pyval"

datatype error =
    AttributeError
  | TypeError
  | IndexError
  | DeliveryError
  | ProcessorError string

type_synonym processor = "payload \<Rightarrow> error + payload"

section \<open>Classification helpers\<close>

text \<open>\<^verbatim>\<open>_categorize_amount\<close>: the \<open>if\<close>/\<open>elif\<close> chain, in the source's order.\<close>

definition categorize_amount :: "real \<Rightarrow> string" where
  "categorize_amount amount =
     (if amount < 10 then ''micro''
      else if amount < 100 then ''small''
      else if amount < 1000 then ''medium''
      else if amount < 10000 then ''large''
      else ''enterprise'')"

text \<open>\<^verbatim>\<open>str.lower\<close> on the ASCII letters.\<close>

definition lower_char :: "char \<Rightarrow> char" where
  "lower_char c =
     (let n = (of_char c :: nat) in if 65 \<le> n \<and> n \<le> 90 then char_of (n + 32) else c)"

definition lower :: "string \<Rightarrow> string" where
  "lower s = map lower_char s"

text \<open>The lookup table of \<^verbatim>\<open>_categorize_event\<close>, as the dictionary literal lists it.\<close>

definition event_categories :: "(string \<times> string) list" where
  "event_categories =
     [(''user_login'', ''authentication''),
      (''user_logout'', ''authentication''),
      (''password_reset'', ''authentication''),
      (''purchase'', ''transaction''),
      (''refund'', ''transaction''),
      (''payment'', ''transaction''),
      (''page_view'', ''analytics''),
      (''click'', ''analytics''),
      (''search'', ''analytics''),
      (''error'', ''system''),
      (''warning'', ''system'')]"

text \<open>
  \<^verbatim>\<open>_categorize_event\<close>: \<^verbatim>\<open>event_type.lower()\<close> exists on strings only; on any other
  value the attribute lookup raises.
\<close>

fun categorize_event :: "pyval \<Rightarrow> error + string" where
  "categorize_event (PStr s) =
     Inr (case map_of event_categories (lower s) of Some c \<Rightarrow> c | None \<Rightarrow> ''other'')"
| "categorize_event _ = Inl AttributeError"

text \<open>
  \<^verbatim>\<open>isinstance(v, (int, float))\<close>: \<open>bool\<close> is a subclass of \<open>int\<close> in Python, with
  \<open>True == 1\<close> and \<open>False == 0\<close>.
\<close>

fun numeric :: "pyval \<Rightarrow> real option" where
  "numeric (PInt i) = Some (of_int i)"
| "numeric (PFloat r) = Some r"
| "numeric (PBool b) = Some (if b then 1 else 0)"
| "numeric _ = None"

section \<open>The default processor\<close>

text \<open>
  What the clock answers during one call of \<^verbatim>\<open>_default_processor\<close>: the two readings of
  \<^verbatim>\<open>datetime.now().isoformat()\<close>, and the session dictionary that the mock
  \<^verbatim>\<open>_get_session_info\<close> builds for a user id (it formats the id and the time, and
  never raises).
\<close>

record clock =
  enriched_at :: string
  timestamp_now :: string
  get_session_info :: "pyval \<Rightarrow> pyval"

text \<open>The body of the \<open>try\<close> block of \<^verbatim>\<open>_default_processor\<close>.\<close>

definition default_enrich :: "clock \<Rightarrow> payload \<Rightarrow> error + payload" where
  "default_enrich ck data =
     (let p0 = data(''processor_id'' \<mapsto> PStr ''default'',
                    ''enriched_at'' \<mapsto> PStr (enriched_at ck),
                    ''processing_version'' \<mapsto> PStr ''1.0'');
          p1 = (case p0 ''timestamp'' of
                  None \<Rightarrow> p0(''timestamp'' \<mapsto> PStr (timestamp_now ck))
                | Some _ \<Rightarrow> p0)
      in case (case p1 ''event_type'' of
                 None \<Rightarrow> Inr p1
               | Some et \<Rightarrow>
                   (case categorize_event et of
                      Inl e \<Rightarrow> Inl e
                    | Inr c \<Rightarrow> Inr (p1(''event_category'' \<mapsto> PStr c)))) of
           Inl e \<Rightarrow> Inl e
         | Inr p2 \<Rightarrow>
             (let p3 = (case p2 ''amount'' of
                          None \<Rightarrow> p2
                        | Some a \<Rightarrow>
                            (case numeric a of
                               None \<Rightarrow> p2
                             | Some x \<Rightarrow> p2(''amount_category'' \<mapsto> PStr (categorize_amount x))));
                  p4 = (case p3 ''user_id'' of
                          None \<Rightarrow> p3
                        | Some u \<Rightarrow> p3(''session_info'' \<mapsto> get_session_info ck u))
              in Inr p4))"

text \<open>
  \<^verbatim>\<open>_default_processor\<close>: an exception inside the \<open>try\<close> block is logged and the
  original, unstamped data is returned; the processor itself never raises.
\<close>

definition default_processor :: "clock \<Rightarrow> payload \<Rightarrow> payload" where
  "default_processor ck data =
     (case default_enrich ck data of Inl e \<Rightarrow> data | Inr p \<Rightarrow> p)"

section \<open>The built-in processor of the users topic\<close>

text \<open>\<^verbatim>\<open>s.split(c)\<close> for a one-character separator: the pieces between the separators.\<close>

fun split :: "char \<Rightarrow> string \<Rightarrow> string list" where
  "split c [] = [[]]"
| "split c (x # xs) =
     (if x = c then [] # split c xs
      else (case split c xs of [] \<Rightarrow> [[x]] | w # ws \<Rightarrow> (x # w) # ws))"

text \<open>\<^verbatim>\<open>xs[-1]\<close>: the last element, \<^verbatim>\<open>IndexError\<close> on an empty list.\<close>

definition last_item :: "'a list \<Rightarrow> error + 'a" where
  "last_item xs = (case rev xs of [] \<Rightarrow> Inl IndexError | x # _ \<Rightarrow> Inr x)"

text \<open>
  \<^verbatim>\<open>_determine_user_segment\<close>: \<^verbatim>\<open>segments[hash(user_id) % 4]\<close>. Python's \<open>hash\<close> is a
  parameter (it is salted per process for strings); lists and dictionaries are not
  hashable and raise \<^verbatim>\<open>TypeError\<close>. Python's \<open>%\<close> with a positive modulus is HOL's
  \<open>mod\<close> on \<open>int\<close>.
\<close>

definition segments :: "string list" where
  "segments = [''bronze'', ''silver'', ''gold'', ''platinum'']"

fun determine_user_segment :: "(pyval \<Rightarrow> int) \<Rightarrow> pyval \<Rightarrow> error + string" where
  "determine_user_segment hash (PList xs) = Inl TypeError"
| "determine_user_segment hash (PDict kvs) = Inl TypeError"
| "determine_user_segment hash v = Inr (segments ! nat (hash v mod 4))"

text \<open>
  \<^verbatim>\<open>user_processor\<close> (registered for the topic \<^verbatim>\<open>users\<close>). It has no \<open>try\<close> block: an
  unhashable \<open>user_id\<close> or an \<open>email\<close> that is not a string makes it raise.
\<close>

definition user_processor :: "(pyval \<Rightarrow> int) \<Rightarrow> payload \<Rightarrow> error + payload" where
  "user_processor hash data =
     (case (case data ''user_id'' of
              None \<Rightarrow> Inr data
            | Some u \<Rightarrow>
                (case determine_user_segment hash u of
                   Inl e \<Rightarrow> Inl e
                 | Inr seg \<Rightarrow> Inr (data(''user_segment'' \<mapsto> PStr seg)))) of
        Inl e \<Rightarrow> Inl e
      | Inr p1 \<Rightarrow>
          (case (case p1 ''email'' of
                   None \<Rightarrow> Inr p1
                 | Some (PStr em) \<Rightarrow>
                     (case last_item (split CHR ''@'' em) of
                        Inl e \<Rightarrow> Inl e
                      | Inr d \<Rightarrow> Inr ((p1(''email_domain'' \<mapsto> PStr d))(''email'' := None)))
                 | Some _ \<Rightarrow> Inl AttributeError) of
             Inl e \<Rightarrow> Inl e
           | Inr p2 \<Rightarrow> Inr (p2(''processed_by'' \<mapsto> PStr ''user_processor''))))"

section \<open>The pipeline state\<close>

text \<open>The message dictionary that the Kafka consumer loop hands to the processor.\<close>

record message =
  m_topic :: string
  m_partition :: int
  m_offset :: int
  m_key :: "string option"
  m_value :: payload

text \<open>An entry of \<^verbatim>\<open>_metrics_buffer\<close>.\<close>

record metric_record =
  mr_timestamp :: string
  mr_topic :: string
  message_size :: nat
  original_partition :: int
  original_offset :: int

text \<open>\<^verbatim>\<open>_processing_stats\<close>.\<close>

record stats =
  messages_processed :: int
  processing_errors :: int
  avg_processing_time :: real
  messages_per_second :: real
  last_reset :: string

text \<open>
  The calls made to the two services, in order, each with its arguments and whether it
  returned (\<open>True\<close>) or raised (\<open>False\<close>). The services are external: the model records
  what the processor asks of them.
\<close>

datatype kafka_value =
    Payload payload
  | MetricsBatch "metric_record list" string nat

datatype sink_call =
    KafkaProduce string kafka_value "string option" bool
  | KinesisPut string payload string bool

text \<open>The fields of \<^verbatim>\<open>StreamProcessor\<close>, and the trace \<open>calls\<close> of its service calls.\<close>

record stream_processor =
  is_running :: bool
  processors :: "string \<rightharpoonup> processor"
  metrics_buffer :: "metric_record list"
  processing_stats :: stats
  processing_times :: "real list"
  last_metrics_flush :: real
  calls :: "sink_call list"

text \<open>
  The settings that the processor reads. They are parameters of the model: the
  \<^verbatim>\<open>Settings\<close> class of \<^verbatim>\<open>app/core/config.py\<close> does not declare them.
\<close>

record settings =
  enable_kafka_output :: bool
  enable_kinesis_output :: bool
  enable_metrics_to_kafka :: bool
  metrics_buffer_size :: int

text \<open>
  What the outside world answers during one call of \<^verbatim>\<open>_process_message\<close>: the readings
  of the clocks, whether each service call returns or raises, and the library functions
  \<^verbatim>\<open>str\<close> and \<^verbatim>\<open>len(json.dumps(...))\<close>.
\<close>

record world =
  start_time :: real
  end_time :: real
  processor_clock :: clock
  processed_at :: string
  kafka_ok :: bool
  kafka_timestamp :: string
  kinesis_ok :: bool
  kinesis_timestamp :: string
  metric_timestamp :: string
  py_str :: "pyval \<Rightarrow> string"
  json_len :: "payload \<Rightarrow> nat"

text \<open>\<^verbatim>\<open>__init__\<close>.\<close>

definition init_processor :: "real \<Rightarrow> string \<Rightarrow> stream_processor" where
  "init_processor now now_iso =
     \<lparr>is_running = False,
      processors = Map.empty,
      metrics_buffer = [],
      processing_stats =
        \<lparr>messages_processed = 0, processing_errors = 0, avg_processing_time = 0,
         messages_per_second = 0, last_reset = now_iso\<rparr>,
      processing_times = [],
      last_metrics_flush = now,
      calls = []\<rparr>"

text \<open>\<^verbatim>\<open>register_processor\<close>.\<close>

definition register_processor :: "string \<Rightarrow> processor \<Rightarrow> stream_processor \<Rightarrow> stream_processor" where
  "register_processor t p st = st\<lparr>processors := (processors st)(t \<mapsto> p)\<rparr>"

section \<open>Processing one message\<close>

text \<open>
  Both services add a \<open>timestamp\<close> to the dictionary they are given when it has none
  (\<^verbatim>\<open>produce_message\<close>, \<^verbatim>\<open>put_record\<close>); the dictionary is the caller's, so the caller
  sees the field afterwards.
\<close>

definition ensure_timestamp :: "string \<Rightarrow> payload \<Rightarrow> payload" where
  "ensure_timestamp ts d = (case d ''timestamp'' of None \<Rightarrow> d(''timestamp'' \<mapsto> PStr ts) | Some _ \<Rightarrow> d)"

text \<open>
  The processor choice of \<^verbatim>\<open>_process_message\<close>:
  \<^verbatim>\<open>self._processors[topic]\<close> when \<^verbatim>\<open>topic in self._processors\<close>, else
  \<^verbatim>\<open>self._default_processor\<close>.
\<close>

definition resolve :: "(string \<rightharpoonup> processor) \<Rightarrow> clock \<Rightarrow> string \<Rightarrow> processor" where
  "resolve procs ck t =
     (case procs t of
        Some p \<Rightarrow> p
      | None \<Rightarrow> (\<lambda>v. Inr (default_processor ck v)))"

text \<open>
  \<^verbatim>\<open>original_message.get("key") or str(processed_data.get("id", ""))\<close>: a missing or
  empty key is falsy.
\<close>

definition partition_key :: "world \<Rightarrow> message \<Rightarrow> payload \<Rightarrow> string" where
  "partition_key w original_message processed_data =
     (let derived = py_str w (case processed_data ''id'' of None \<Rightarrow> PStr [] | Some v \<Rightarrow> v)
      in case m_key original_message of
           None \<Rightarrow> derived
         | Some k \<Rightarrow> if k = [] then derived else k)"

text \<open>
  \<^verbatim>\<open>_handle_processed_data\<close>. The result is the state reached and the exception that
  leaves the function, if any: the \<open>except\<close> clause logs and re-raises.
\<close>

definition handle_processed_data ::
  "settings \<Rightarrow> world \<Rightarrow> stream_processor \<Rightarrow> string \<Rightarrow> payload \<Rightarrow> message
     \<Rightarrow> stream_processor \<times> error option" where
  "handle_processed_data cfg w st original_topic processed_data original_message =
     (let d0 = processed_data(''processed_at'' \<mapsto> PStr (processed_at w),
                              ''original_topic'' \<mapsto> PStr original_topic,
                              ''original_offset'' \<mapsto> PInt (m_offset original_message),
                              ''original_partition'' \<mapsto> PInt (m_partition original_message));
          st1 = (if enable_kafka_output cfg
                 then st\<lparr>calls := calls st @
                        [KafkaProduce (original_topic @ ''_processed'') (Payload d0)
                           (m_key original_message) (kafka_ok w)]\<rparr>
                 else st)
      in if enable_kafka_output cfg \<and> \<not> kafka_ok w then (st1, Some DeliveryError)
         else
           (let d1 = (if enable_kafka_output cfg then ensure_timestamp (kafka_timestamp w) d0 else d0);
                st2 = (if enable_kinesis_output cfg
                       then st1\<lparr>calls := calls st1 @
                              [KinesisPut (original_topic @ ''-processed'') d1
                                 (partition_key w original_message d1) (kinesis_ok w)]\<rparr>
                       else st1)
            in if enable_kinesis_output cfg \<and> \<not> kinesis_ok w then (st2, Some DeliveryError)
               else
                 (let d2 = (if enable_kinesis_output cfg
                            then ensure_timestamp (kinesis_timestamp w) d1 else d1)
                  in (st2\<lparr>metrics_buffer := metrics_buffer st2 @
                            [\<lparr>mr_timestamp = metric_timestamp w,
                              mr_topic = original_topic,
                              message_size = json_len w d2,
                              original_partition = m_partition original_message,
                              original_offset = m_offset original_message\<rparr>]\<rparr>,
                      None))))"

text \<open>The \<open>except\<close> clause of \<^verbatim>\<open>_process_message\<close>: count the error, raise nothing.\<close>

definition count_error :: "stream_processor \<Rightarrow> stream_processor" where
  "count_error st =
     st\<lparr>processing_stats := (processing_stats st)
          \<lparr>processing_errors := processing_errors (processing_stats st) + 1\<rparr>\<rparr>"

text \<open>
  The window update of \<^verbatim>\<open>_process_message\<close>: append, then
  \<^verbatim>\<open>self._processing_times[-1000:]\<close> when more than 1000 entries are held.
\<close>

definition track_time :: "real \<Rightarrow> real list \<Rightarrow> real list" where
  "track_time processing_time window =
     (let ts = window @ [processing_time]
      in if length ts > 1000 then drop (length ts - 1000) ts else ts)"

text \<open>\<^verbatim>\<open>_process_message\<close>.\<close>

definition process_message ::
  "settings \<Rightarrow> world \<Rightarrow> message \<Rightarrow> stream_processor \<Rightarrow> stream_processor" where
  "process_message cfg w message_data st =
     (case resolve (processors st) (processor_clock w) (m_topic message_data)
             (m_value message_data) of
        Inl e \<Rightarrow> count_error st
      | Inr processed_data \<Rightarrow>
          (case handle_processed_data cfg w st (m_topic message_data) processed_data
                  message_data of
             (st1, Some e) \<Rightarrow> count_error st1
           | (st1, None) \<Rightarrow>
               st1\<lparr>processing_times :=
                      track_time (end_time w - start_time w) (processing_times st1),
                    processing_stats := (processing_stats st1)
                      \<lparr>messages_processed := messages_processed (processing_stats st1) + 1\<rparr>\<rparr>))"

section \<open>The metrics cycle\<close>

text \<open>
  \<^verbatim>\<open>_flush_metrics_buffer\<close>. \<open>flush_ok\<close> says whether the call to the Kafka service
  returns; when it raises, the \<open>except\<close> clause logs and the buffer is not cleared.
\<close>

definition flush_metrics_buffer ::
  "settings \<Rightarrow> bool \<Rightarrow> string \<Rightarrow> stream_processor \<Rightarrow> stream_processor" where
  "flush_metrics_buffer cfg flush_ok flushed_at st =
     (if metrics_buffer st = [] then st
      else if enable_metrics_to_kafka cfg then
        (let st1 = st\<lparr>calls := calls st @
                     [KafkaProduce ''processing_metrics''
                        (MetricsBatch (metrics_buffer st) flushed_at (length (metrics_buffer st)))
                        None flush_ok]\<rparr>
         in if flush_ok then st1\<lparr>metrics_buffer := []\<rparr> else st1)
      else st\<lparr>metrics_buffer := []\<rparr>)"

text \<open>\<^verbatim>\<open>statistics.mean\<close> of a non-empty list.\<close>

definition mean :: "real list \<Rightarrow> real" where
  "mean xs = sum_list xs / real (length xs)"

text \<open>
  One iteration of the loop of \<^verbatim>\<open>_collect_metrics\<close>, after the sleep:
  \<open>current_time\<close> is the reading of \<^verbatim>\<open>time.time()\<close>.
\<close>

definition collect_metrics ::
  "settings \<Rightarrow> real \<Rightarrow> bool \<Rightarrow> string \<Rightarrow> stream_processor \<Rightarrow> stream_processor" where
  "collect_metrics cfg current_time flush_ok flushed_at st =
     (let time_diff = current_time - last_metrics_flush st;
          s0 = processing_stats st;
          s1 = (if processing_times st \<noteq> []
                then s0\<lparr>avg_processing_time := mean (processing_times st)\<rparr> else s0);
          s2 = s1\<lparr>messages_per_second :=
                    (if time_diff > 0 then real_of_int (messages_processed s1) / time_diff else 0)\<rparr>;
          st1 = st\<lparr>processing_stats := s2\<rparr>;
          st2 = (if int (length (metrics_buffer st1)) > metrics_buffer_size cfg
                 then flush_metrics_buffer cfg flush_ok flushed_at st1 else st1)
      in st2\<lparr>processing_stats := (processing_stats st2)
                \<lparr>messages_processed := 0, processing_errors := 0\<rparr>,
              last_metrics_flush := current_time\<rparr>)"

section \<open>Runs\<close>

text \<open>
  What can happen to a processor, one event at a time: a message is delivered, a metrics
  cycle runs, a processor is registered.
\<close>

datatype event =
    Deliver world message
  | Cycle real bool string
  | Register string processor

fun step :: "settings \<Rightarrow> stream_processor \<Rightarrow> event \<Rightarrow> stream_processor" where
  "step cfg st (Deliver w m) = process_message cfg w m st"
| "step cfg st (Cycle current_time flush_ok flushed_at) =
     collect_metrics cfg current_time flush_ok flushed_at st"
| "step cfg st (Register t p) = register_processor t p st"

definition run :: "settings \<Rightarrow> stream_processor \<Rightarrow> event list \<Rightarrow> stream_processor" where
  "run cfg st evs = foldl (step cfg) st evs"

section \<open>Vocabulary of the properties\<close>

text \<open>What the chosen processor returns for a message: a payload, or the exception it raises.\<close>

definition processor_result :: "world \<Rightarrow> message \<Rightarrow> stream_processor \<Rightarrow> error + payload" where
  "processor_result w m st = resolve (processors st) (processor_clock w) (m_topic m) (m_value m)"

text \<open>Every enabled sink accepts the message.\<close>

definition sinks_ok :: "settings \<Rightarrow> world \<Rightarrow> bool" where
  "sinks_ok cfg w =
     ((enable_kafka_output cfg \<longrightarrow> kafka_ok w) \<and> (enable_kinesis_output cfg \<longrightarrow> kinesis_ok w))"

text \<open>The processor's output with the metadata that \<^verbatim>\<open>_handle_processed_data\<close> adds.\<close>

definition stamped :: "world \<Rightarrow> string \<Rightarrow> message \<Rightarrow> payload \<Rightarrow> payload" where
  "stamped w t m p =
     p(''processed_at'' \<mapsto> PStr (processed_at w),
       ''original_topic'' \<mapsto> PStr t,
       ''original_offset'' \<mapsto> PInt (m_offset m),
       ''original_partition'' \<mapsto> PInt (m_partition m))"

text \<open>Which sink a call went to, its destination, and whether it returned.\<close>

datatype sink = Kafka | Kinesis

fun attempt :: "sink_call \<Rightarrow> sink \<times> string \<times> bool" where
  "attempt (KafkaProduce t v k ok) = (Kafka, t, ok)"
| "attempt (KinesisPut s d k ok) = (Kinesis, s, ok)"

section \<open>Concrete inputs\<close>

definition example_clock :: clock where
  "example_clock =
     \<lparr>enriched_at = ''2024-01-01T00:00:01'', timestamp_now = ''2024-01-01T00:00:02'',
      get_session_info = (\<lambda>u. PDict [(''device_type'', PStr ''web'')])\<rparr>"

definition example_world :: "bool \<Rightarrow> bool \<Rightarrow> world" where
  "example_world kafka kinesis =
     \<lparr>start_time = 10, end_time = 10.25, processor_clock = example_clock,
      processed_at = ''2024-01-01T00:00:03'',
      kafka_ok = kafka, kafka_timestamp = ''2024-01-01T00:00:04'',
      kinesis_ok = kinesis, kinesis_timestamp = ''2024-01-01T00:00:05'',
      metric_timestamp = ''2024-01-01T00:00:06'',
      py_str = (\<lambda>v. case v of PStr s \<Rightarrow> s | _ \<Rightarrow> ''?''),
      json_len = (\<lambda>d. 2)\<rparr>"

definition example_message :: message where
  "example_message =
     \<lparr>m_topic = ''unknown_topic'', m_partition = 0, m_offset = 7, m_key = Some ''k1'',
      m_value = [''event_type'' \<mapsto> PStr ''purchase'']\<rparr>"

definition both_sinks :: settings where
  "both_sinks =
     \<lparr>enable_kafka_output = True, enable_kinesis_output = True,
      enable_metrics_to_kafka = True, metrics_buffer_size = 1\<rparr>"

definition no_metrics_output :: settings where
  "no_metrics_output = both_sinks\<lparr>enable_metrics_to_kafka := False\<rparr>"

definition fresh :: stream_processor where
  "fresh = init_processor 0 ''2024-01-01T00:00:00''"

definition example_hash :: "pyval \<Rightarrow> int" where
  "example_hash v = 6"

definition registered :: stream_processor where
  "registered = register_processor ''users'' (user_processor example_hash) fresh"

definition bad_user_message :: message where
  "bad_user_message =
     \<lparr>m_topic = ''users'', m_partition = 1, m_offset = 12, m_key = None,
      m_value = [''email'' \<mapsto> PInt 5]\<rparr>"

definition user_payload :: payload where
  "user_payload = [''user_id'' \<mapsto> PInt 7, ''email'' \<mapsto> PStr ''alice@example.com'']"

definition plain_payload :: payload where
  "plain_payload = [''name'' \<mapsto> PStr ''bob'']"

definition order_payload :: payload where
  "order_payload = [''event_type'' \<mapsto> PStr ''Purchase'', ''amount'' \<mapsto> PInt 1500]"

definition example_record :: metric_record where
  "example_record =
     \<lparr>mr_timestamp = ''2024-01-01T00:00:06'', mr_topic = ''unknown_topic'', message_size = 2,
      original_partition = 0, original_offset = 7\<rparr>"

definition buffered :: stream_processor where
  "buffered = fresh\<lparr>metrics_buffer := [example_record]\<rparr>"

definition full_window :: stream_processor where
  "full_window = fresh\<lparr>processing_times := replicate 1000 0.5\<rparr>"

definition sampled :: stream_processor where
  "sampled = fresh\<lparr>processing_times := [0.2, 0.4]\<rparr>"

text \<open>
  A metrics cycle at time 100, then 1500 messages, each delivered with both sinks up.
\<close>

definition busy_interval :: stream_processor where
  "busy_interval =
     run both_sinks (collect_metrics both_sinks 100 True ''2024-01-01T00:01:40'' fresh)
       (replicate 1500 (Deliver (example_world True True) example_message))"

section \<open>Facts about the concrete inputs\<close>

lemma example_world_sel:
  "kafka_ok (example_world a b) = a" "kinesis_ok (example_world a b) = b"
  "processor_clock (example_world a b) = example_clock"
  "start_time (example_world a b) = 10" "end_time (example_world a b) = 10.25"
  by (simp_all add: example_world_def)

lemma example_message_sel:
  "m_topic example_message = ''unknown_topic''" "m_key example_message = Some ''k1''"
  "m_offset example_message = 7" "m_partition example_message = 0"
  "m_value example_message = [''event_type'' \<mapsto> PStr ''purchase'']"
  by (simp_all add: example_message_def)

lemma both_sinks_sel:
  "enable_kafka_output both_sinks" "enable_kinesis_output both_sinks"
  "enable_metrics_to_kafka both_sinks" "metrics_buffer_size both_sinks = 1"
  by (simp_all add: both_sinks_def)

lemma no_metrics_output_sel:
  "\<not> enable_metrics_to_kafka no_metrics_output"
  by (simp add: no_metrics_output_def)

lemma fresh_sel:
  "processing_stats fresh =
     \<lparr>messages_processed = 0, processing_errors = 0, avg_processing_time = 0,
      messages_per_second = 0, last_reset = ''2024-01-01T00:00:00''\<rparr>"
  "processing_times fresh = []" "metrics_buffer fresh = []" "calls fresh = []"
  "last_metrics_flush fresh = 0" "processors fresh = Map.empty"
  by (simp_all add: fresh_def init_processor_def)

lemma registered_sel:
  "processors registered ''users'' = Some (user_processor example_hash)"
  "processors registered ''unknown_topic'' = None"
  "processing_stats registered = processing_stats fresh"
  by (simp_all add: registered_def register_processor_def fresh_sel)

lemma buffered_sel:
  "metrics_buffer buffered = [example_record]" "calls buffered = []"
  by (simp_all add: buffered_def fresh_sel)

lemma full_window_sel:
  "processing_times full_window = replicate 1000 0.5" "processors full_window = Map.empty"
  by (simp_all add: full_window_def fresh_sel)

lemma sampled_sel:
  "processing_times sampled = [0.2, 0.4]"
  "avg_processing_time (processing_stats sampled) = 0"
  by (simp_all add: sampled_def fresh_sel)

section \<open>Frame lemmas\<close>

lemma flush_times [simp]:
  "processing_times (flush_metrics_buffer cfg ok fa st) = processing_times st"
  by (simp add: flush_metrics_buffer_def Let_def)

lemma flush_stats [simp]:
  "processing_stats (flush_metrics_buffer cfg ok fa st) = processing_stats st"
  by (simp add: flush_metrics_buffer_def Let_def)

lemma flush_processors [simp]:
  "processors (flush_metrics_buffer cfg ok fa st) = processors st"
  by (simp add: flush_metrics_buffer_def Let_def)

lemma handle_times [simp]:
  "processing_times (fst (handle_processed_data cfg w st t p m)) = processing_times st"
  by (simp add: handle_processed_data_def Let_def)

lemma handle_stats [simp]:
  "processing_stats (fst (handle_processed_data cfg w st t p m)) = processing_stats st"
  by (simp add: handle_processed_data_def Let_def)

lemma handle_processors [simp]:
  "processors (fst (handle_processed_data cfg w st t p m)) = processors st"
  by (simp add: handle_processed_data_def Let_def)

lemma handle_last_flush [simp]:
  "last_metrics_flush (fst (handle_processed_data cfg w st t p m)) = last_metrics_flush st"
  by (simp add: handle_processed_data_def Let_def)

lemma collect_times [simp]:
  "processing_times (collect_metrics cfg now ok fa st) = processing_times st"
  by (simp add: collect_metrics_def Let_def)

lemma collect_processors [simp]:
  "processors (collect_metrics cfg now ok fa st) = processors st"
  by (simp add: collect_metrics_def Let_def)

lemma collect_resets:
  "messages_processed (processing_stats (collect_metrics cfg now ok fa st)) = 0"
  "processing_errors (processing_stats (collect_metrics cfg now ok fa st)) = 0"
  "last_metrics_flush (collect_metrics cfg now ok fa st) = now"
  by (simp_all add: collect_metrics_def Let_def)

section \<open>One message\<close>

lemma handle_error_iff:
  "snd (handle_processed_data cfg w st t p m) = None \<longleftrightarrow> sinks_ok cfg w"
  by (simp add: handle_processed_data_def sinks_ok_def Let_def)

lemma process_message_cases:
  "process_message cfg w m st =
     (case processor_result w m st of
        Inl e \<Rightarrow> count_error st
      | Inr p \<Rightarrow>
          (let st1 = fst (handle_processed_data cfg w st (m_topic m) p m)
           in if sinks_ok cfg w
              then st1\<lparr>processing_times :=
                         track_time (end_time w - start_time w) (processing_times st1),
                       processing_stats := (processing_stats st1)
                         \<lparr>messages_processed := messages_processed (processing_stats st1) + 1\<rparr>\<rparr>
              else count_error st1))"
  unfolding process_message_def processor_result_def
  apply (cases "resolve (processors st) (processor_clock w) (m_topic m) (m_value m)")
   apply simp
  subgoal for p
    using handle_error_iff[of cfg w st "m_topic m" p m]
    apply (cases "handle_processed_data cfg w st (m_topic m) p m")
    apply (auto simp: Let_def split: option.splits)
    done
  done

lemma handle_calls:
  "calls (fst (handle_processed_data cfg w st t p m)) =
     calls st @
     (if enable_kafka_output cfg
      then [KafkaProduce (t @ ''_processed'') (Payload (stamped w t m p)) (m_key m) (kafka_ok w)]
      else []) @
     (if enable_kinesis_output cfg \<and> (enable_kafka_output cfg \<longrightarrow> kafka_ok w)
      then [KinesisPut (t @ ''-processed'')
              (if enable_kafka_output cfg then ensure_timestamp (kafka_timestamp w) (stamped w t m p)
               else stamped w t m p)
              (partition_key w m
                 (if enable_kafka_output cfg then ensure_timestamp (kafka_timestamp w) (stamped w t m p)
                  else stamped w t m p))
              (kinesis_ok w)]
      else [])"
  by (simp add: handle_processed_data_def stamped_def Let_def)

lemma process_calls:
  "calls (process_message cfg w m st) =
     (case processor_result w m st of
        Inl e \<Rightarrow> calls st
      | Inr p \<Rightarrow> calls (fst (handle_processed_data cfg w st (m_topic m) p m)))"
  by (simp add: process_message_cases count_error_def Let_def split: sum.splits)

lemma process_processors [simp]:
  "processors (process_message cfg w m st) = processors st"
  by (simp add: process_message_cases count_error_def Let_def split: sum.splits)

lemma process_last_flush [simp]:
  "last_metrics_flush (process_message cfg w m st) = last_metrics_flush st"
  by (simp add: process_message_cases count_error_def Let_def split: sum.splits)

lemma process_times:
  "processing_times (process_message cfg w m st) =
     (if \<not> isl (processor_result w m st) \<and> sinks_ok cfg w
      then track_time (end_time w - start_time w) (processing_times st)
      else processing_times st)"
  by (simp add: process_message_cases count_error_def Let_def split: sum.splits)

lemma example_result:
  "processor_result (example_world a b) example_message fresh =
     Inr (default_processor example_clock [''event_type'' \<mapsto> PStr ''purchase''])"
  by (simp add: processor_result_def fresh_sel resolve_def example_world_sel example_message_sel)

lemma bad_user_result:
  "processor_result (example_world a b) bad_user_message registered = Inl AttributeError"
  by (simp add: processor_result_def resolve_def registered_sel bad_user_message_def
      user_processor_def)

section \<open>The window\<close>

lemma track_time_length: "length w \<le> 1000 \<Longrightarrow> length (track_time d w) \<le> 1000"
  by (simp add: track_time_def Let_def)

lemma track_time_eq: "track_time d w = drop (length w + 1 - 1000) (w @ [d])"
  by (simp add: track_time_def Let_def)

lemma step_window:
  assumes "length (processing_times st) \<le> 1000"
  shows "length (processing_times (step cfg st ev)) \<le> 1000"
proof (cases ev)
  case (Deliver w m)
  then show ?thesis
    using assms track_time_length[OF assms] by (simp add: process_times)
next
  case (Cycle current_time flush_ok flushed_at)
  then show ?thesis using assms by simp
next
  case (Register t p)
  then show ?thesis using assms by (simp add: register_processor_def)
qed

lemma run_window:
  "length (processing_times st) \<le> 1000 \<Longrightarrow> length (processing_times (run cfg st evs)) \<le> 1000"
  unfolding run_def
  by (induction evs arbitrary: st) (simp_all add: step_window)

section \<open>Repeated deliveries\<close>

lemma run_deliveries:
  assumes "processor_result w m st = Inr p" and "sinks_ok cfg w"
  shows "messages_processed (processing_stats (run cfg st (replicate n (Deliver w m)))) =
           messages_processed (processing_stats st) + int n \<and>
         processing_errors (processing_stats (run cfg st (replicate n (Deliver w m)))) =
           processing_errors (processing_stats st) \<and>
         last_metrics_flush (run cfg st (replicate n (Deliver w m))) = last_metrics_flush st"
  using assms
proof (induction n arbitrary: st)
  case 0
  then show ?case by (simp add: run_def)
next
  case (Suc n)
  let ?st = "process_message cfg w m st"
  have r: "processor_result w m ?st = Inr p"
    using Suc.prems(1) by (simp add: processor_result_def)
  have s: "messages_processed (processing_stats ?st) = messages_processed (processing_stats st) + 1"
    "processing_errors (processing_stats ?st) = processing_errors (processing_stats st)"
    using Suc.prems by (simp_all add: process_message_cases Let_def)
  have "run cfg st (replicate (Suc n) (Deliver w m)) = run cfg ?st (replicate n (Deliver w m))"
    by (simp add: run_def)
  then show ?case using Suc.IH[OF r Suc.prems(2)] s by simp
qed

lemma busy_interval_sel:
  "messages_processed (processing_stats busy_interval) = 1500"
  "processing_errors (processing_stats busy_interval) = 0"
  "last_metrics_flush busy_interval = 100"
proof -
  let ?st = "collect_metrics both_sinks 100 True ''2024-01-01T00:01:40'' fresh"
  have r: "processor_result (example_world True True) example_message ?st =
             Inr (default_processor example_clock [''event_type'' \<mapsto> PStr ''purchase''])"
    by (simp add: processor_result_def fresh_sel resolve_def example_world_sel example_message_sel)
  have s: "sinks_ok both_sinks (example_world True True)"
    by (simp add: sinks_ok_def example_world_sel)
  note d = run_deliveries[OF r s, of 1500]
  show "messages_processed (processing_stats busy_interval) = 1500"
    "processing_errors (processing_stats busy_interval) = 0"
    "last_metrics_flush busy_interval = 100"
    using d by (simp_all add: busy_interval_def collect_resets)
qed

section \<open>Splitting a string\<close>

lemma split_nonempty: "split c s \<noteq> []"
  by (induction s) (auto split: list.splits)

lemma split_last:
  "(c \<notin> set s \<and> split c s = [s]) \<or>
   (\<exists>pre. s = pre @ c # last (split c s) \<and> c \<notin> set (last (split c s)) \<and>
          2 \<le> length (split c s))"
proof (induction s)
  case Nil
  then show ?case by simp
next
  case (Cons x xs)
  show ?case
  proof (cases "x = c")
    case True
    from Cons show ?thesis
    proof
      assume "c \<notin> set xs \<and> split c xs = [xs]"
      then have "x # xs = [] @ c # last (split c (x # xs))"
        "c \<notin> set (last (split c (x # xs)))" "2 \<le> length (split c (x # xs))"
        using True by simp_all
      then show ?thesis by blast
    next
      assume "\<exists>pre. xs = pre @ c # last (split c xs) \<and> c \<notin> set (last (split c xs)) \<and>
                2 \<le> length (split c xs)"
      then obtain pre where p: "xs = pre @ c # last (split c xs)"
        "c \<notin> set (last (split c xs))" "2 \<le> length (split c xs)" by blast
      have l: "last (split c (x # xs)) = last (split c xs)"
        using True split_nonempty[of c xs] by simp
      have "x # xs = (x # pre) @ c # last (split c (x # xs))"
        using p(1) l by simp
      moreover have "c \<notin> set (last (split c (x # xs)))" using p(2) l by simp
      moreover have "2 \<le> length (split c (x # xs))" using True p(3) by simp
      ultimately show ?thesis by blast
    qed
  next
    case False
    from Cons show ?thesis
    proof
      assume "c \<notin> set xs \<and> split c xs = [xs]"
      then show ?thesis using False by simp
    next
      assume "\<exists>pre. xs = pre @ c # last (split c xs) \<and> c \<notin> set (last (split c xs)) \<and>
                2 \<le> length (split c xs)"
      then obtain pre where p: "xs = pre @ c # last (split c xs)"
        "c \<notin> set (last (split c xs))" "2 \<le> length (split c xs)" by blast
      obtain w ws where s0: "split c xs = w # ws"
        using split_nonempty[of c xs] by (cases "split c xs") auto
      have s: "split c xs = w # ws" "ws \<noteq> []"
        using s0 p(3) by auto
      have l: "last (split c (x # xs)) = last (split c xs)"
        using False s by simp
      have "x # xs = (x # pre) @ c # last (split c (x # xs))"
        using p(1) l by simp
      moreover have "c \<notin> set (last (split c (x # xs)))" using p(2) l by simp
      moreover have "2 \<le> length (split c (x # xs))" using False s p(3) by simp
      ultimately show ?thesis by blast
    qed
  qed
qed

lemma split_domain:
  "c \<notin> set (last (split c s)) \<and>
   ((\<exists>pre. s = pre @ c # last (split c s)) \<or> (c \<notin> set s \<and> last (split c s) = s))"
  using split_last[of c s] by auto

lemma last_item_split: "last_item (split c s) = Inr (last (split c s))"
  using split_nonempty[of c s]
  by (cases "split c s" rule: rev_cases) (simp_all add: last_item_def)

section \<open>The users processor\<close>

lemma user_processor_email_str:
  "user_processor h d = Inr out \<Longrightarrow> d ''email'' = Some v \<Longrightarrow>
   \<exists>em. v = PStr em \<and> out ''email'' = None \<and>
        out ''email_domain'' = Some (PStr (last (split CHR ''@'' em)))"
  unfolding user_processor_def
  by (auto simp: last_item_split split: option.splits sum.splits pyval.splits)

lemma user_processor_no_email:
  "user_processor h d = Inr out \<Longrightarrow> d ''email'' = None \<Longrightarrow>
   out ''email'' = None \<and> out ''email_domain'' = d ''email_domain''"
  unfolding user_processor_def
  by (auto split: option.splits sum.splits pyval.splits)

lemma user_processor_returns:
  "(d ''user_id'' = None \<or> (\<exists>u. d ''user_id'' = Some u \<and> \<not> isl (determine_user_segment h u))) \<Longrightarrow>
   (d ''email'' = None \<or> (\<exists>em. d ''email'' = Some (PStr em))) \<Longrightarrow>
   \<not> isl (user_processor h d)"
  unfolding user_processor_def
  by (auto simp: last_item_split split: option.splits sum.splits pyval.splits)

lemma user_payload_result:
  "user_processor example_hash user_payload =
     Inr [''user_id'' \<mapsto> PInt 7, ''user_segment'' \<mapsto> PStr ''gold'',
          ''email_domain'' \<mapsto> PStr ''example.com'',
          ''processed_by'' \<mapsto> PStr ''user_processor'']"
  by (simp add: user_processor_def user_payload_def example_hash_def segments_def last_item_def
      fun_upd_twist)

lemma plain_payload_result:
  "user_processor example_hash plain_payload =
     Inr [''name'' \<mapsto> PStr ''bob'', ''processed_by'' \<mapsto> PStr ''user_processor'']"
  by (simp add: user_processor_def plain_payload_def)

section \<open>The default processor\<close>

lemma enrich_sources:
  "default_enrich ck d = Inr p \<Longrightarrow>
   p ''event_type'' = d ''event_type'' \<and> p ''amount'' = d ''amount''"
  unfolding default_enrich_def
  by (auto simp: Let_def split: option.splits sum.splits)

lemma enrich_event_category:
  "default_enrich ck d = Inr p \<Longrightarrow>
   p ''event_category'' =
     (case d ''event_type'' of
        None \<Rightarrow> d ''event_category''
      | Some et \<Rightarrow> (case categorize_event et of Inl e \<Rightarrow> None | Inr c \<Rightarrow> Some (PStr c)))"
  unfolding default_enrich_def
  by (auto simp: Let_def split: option.splits sum.splits)

lemma enrich_amount_category:
  "default_enrich ck d = Inr p \<Longrightarrow>
   p ''amount_category'' =
     (case d ''amount'' of
        None \<Rightarrow> d ''amount_category''
      | Some a \<Rightarrow>
          (case numeric a of
             None \<Rightarrow> d ''amount_category''
           | Some x \<Rightarrow> Some (PStr (categorize_amount x))))"
  unfolding default_enrich_def
  by (auto simp: Let_def split: option.splits sum.splits)

lemma enrich_fails_iff:
  "isl (default_enrich ck d) \<longleftrightarrow> (\<exists>et. d ''event_type'' = Some et \<and> isl (categorize_event et))"
  unfolding default_enrich_def
  by (auto simp: Let_def split: option.splits sum.splits)

lemma lookup_Purchase:
  "(case map_of event_categories (lower ''Purchase'') of None \<Rightarrow> ''other'' | Some c \<Rightarrow> c) =
     ''transaction''"
  by code_simp

lemma categorize_Purchase: "categorize_event (PStr ''Purchase'') = Inr ''transaction''"
  by (simp add: lookup_Purchase)

lemma order_payload_enriched:
  "\<exists>p. default_enrich example_clock order_payload = Inr p"
  using enrich_fails_iff[of example_clock order_payload]
  by (cases "default_enrich example_clock order_payload")
     (simp_all add: order_payload_def lookup_Purchase)

lemma order_payload_categories:
  "default_processor example_clock order_payload ''event_category'' = Some (PStr ''transaction'')"
  "default_processor example_clock order_payload ''amount_category'' = Some (PStr ''large'')"
proof -
  obtain p where p: "default_enrich example_clock order_payload = Inr p"
    using order_payload_enriched by blast
  show "default_processor example_clock order_payload ''event_category'' = Some (PStr ''transaction'')"
    using enrich_event_category[OF p] p
    by (simp add: default_processor_def order_payload_def lookup_Purchase)
  show "default_processor example_clock order_payload ''amount_category'' = Some (PStr ''large'')"
    using enrich_amount_category[OF p] p
    by (simp add: default_processor_def order_payload_def categorize_amount_def)
qed


section \<open>The claims\<close>

subsection \<open>Counters of a delivered message\<close>

text \<open>
  Claim C1, as stated, says that whenever the processor succeeds the message counts as
  processed. It does not hold: with the broker sink enabled and down, the default
  processor returns a payload, \<^verbatim>\<open>_handle_processed_data\<close> re-raises the delivery error,
  and the message is counted as an error and not as processed.
\<close>

theorem processor_success_counted_as_error:
  "\<not> isl (processor_result (example_world False True) example_message fresh) \<and>
   messages_processed (processing_stats
      (process_message both_sinks (example_world False True) example_message fresh)) =
     messages_processed (processing_stats fresh) \<and>
   processing_errors (processing_stats
      (process_message both_sinks (example_world False True) example_message fresh)) =
     processing_errors (processing_stats fresh) + 1"
  by (simp add: process_message_cases example_result sinks_ok_def both_sinks_sel
      example_world_sel count_error_def Let_def fresh_sel)

text \<open>
  Claim C1, amended: for every message delivered to \<^verbatim>\<open>_process_message\<close>, if the
  processor returns a payload and every enabled sink accepts it, \<open>messages_processed\<close>
  increases by exactly 1 and \<open>processing_errors\<close> is unchanged; if the processor raises,
  or it returns and an enabled sink raises, \<open>processing_errors\<close> increases by exactly 1
  and \<open>messages_processed\<close> is unchanged; no message changes both counters.
\<close>

theorem process_message_counts_once:
  "(\<forall>e. processor_result w m st = Inl e \<longrightarrow>
      processing_errors (processing_stats (process_message cfg w m st)) =
        processing_errors (processing_stats st) + 1 \<and>
      messages_processed (processing_stats (process_message cfg w m st)) =
        messages_processed (processing_stats st)) \<and>
   (\<forall>p. processor_result w m st = Inr p \<and> sinks_ok cfg w \<longrightarrow>
      messages_processed (processing_stats (process_message cfg w m st)) =
        messages_processed (processing_stats st) + 1 \<and>
      processing_errors (processing_stats (process_message cfg w m st)) =
        processing_errors (processing_stats st)) \<and>
   (\<forall>p. processor_result w m st = Inr p \<and> \<not> sinks_ok cfg w \<longrightarrow>
      processing_errors (processing_stats (process_message cfg w m st)) =
        processing_errors (processing_stats st) + 1 \<and>
      messages_processed (processing_stats (process_message cfg w m st)) =
        messages_processed (processing_stats st)) \<and>
   \<not> (messages_processed (processing_stats (process_message cfg w m st)) \<noteq>
        messages_processed (processing_stats st) \<and>
      processing_errors (processing_stats (process_message cfg w m st)) \<noteq>
        processing_errors (processing_stats st))"
  by (simp add: process_message_cases count_error_def Let_def split: sum.splits)

theorem process_message_counts_once_witness:
  "processor_result (example_world True True) bad_user_message registered = Inl AttributeError \<and>
   processing_errors (processing_stats
      (process_message both_sinks (example_world True True) bad_user_message registered)) = 1 \<and>
   messages_processed (processing_stats
      (process_message both_sinks (example_world True True) bad_user_message registered)) = 0 \<and>
   processor_result (example_world True True) example_message fresh =
     Inr (default_processor example_clock [''event_type'' \<mapsto> PStr ''purchase'']) \<and>
   sinks_ok both_sinks (example_world True True) \<and>
   messages_processed (processing_stats
      (process_message both_sinks (example_world True True) example_message fresh)) = 1 \<and>
   processing_errors (processing_stats
      (process_message both_sinks (example_world True True) example_message fresh)) = 0 \<and>
   processor_result (example_world True False) example_message fresh =
     Inr (default_processor example_clock [''event_type'' \<mapsto> PStr ''purchase'']) \<and>
   \<not> sinks_ok both_sinks (example_world True False) \<and>
   processing_errors (processing_stats
      (process_message both_sinks (example_world True False) example_message fresh)) = 1 \<and>
   messages_processed (processing_stats
      (process_message both_sinks (example_world True False) example_message fresh)) = 0"
  using process_message_counts_once
          [of "example_world True True" bad_user_message registered both_sinks]
        process_message_counts_once
          [of "example_world True True" example_message fresh both_sinks]
        process_message_counts_once
          [of "example_world True False" example_message fresh both_sinks]
  by (simp add: example_result bad_user_result sinks_ok_def both_sinks_sel example_world_sel
      fresh_sel registered_sel)

subsection \<open>Fan-out to the two sinks\<close>

text \<open>
  Claim C2, as stated, says that a failing sink never suppresses the other sink's
  attempt. It does not hold: with both sinks enabled, the broker sink down and the
  secondary stream up, the only call made is the failed call to the broker; the
  secondary stream is never tried.
\<close>

theorem kinesis_not_attempted_after_kafka_failure:
  "\<not> kafka_ok (example_world False True) \<and> kinesis_ok (example_world False True) \<and>
   map attempt (calls (process_message both_sinks (example_world False True) example_message fresh)) =
     [(Kafka, ''unknown_topic_processed'', False)]"
  by (simp add: process_calls handle_calls example_result both_sinks_sel example_world_sel
      fresh_sel example_message_sel)

text \<open>
  Claim C2, amended: with both sinks enabled, the broker sink is tried first and the
  secondary stream second. When the secondary stream fails while the broker is up, the
  message has been published to the broker, the secondary stream has been tried, and
  exactly one error is counted. When the broker sink fails, the secondary stream is not
  tried, and exactly one error is counted. In both cases the message is not counted as
  processed.
\<close>

theorem fan_out_in_order:
  assumes "processor_result w m st = Inr p"
    and "enable_kafka_output cfg" and "enable_kinesis_output cfg"
  shows
  "(kafka_ok w \<and> \<not> kinesis_ok w \<longrightarrow>
      calls (process_message cfg w m st) =
        calls st @
        [KafkaProduce (m_topic m @ ''_processed'') (Payload (stamped w (m_topic m) m p))
           (m_key m) True,
         KinesisPut (m_topic m @ ''-processed'')
           (ensure_timestamp (kafka_timestamp w) (stamped w (m_topic m) m p))
           (partition_key w m (ensure_timestamp (kafka_timestamp w) (stamped w (m_topic m) m p)))
           False] \<and>
      processing_errors (processing_stats (process_message cfg w m st)) =
        processing_errors (processing_stats st) + 1 \<and>
      messages_processed (processing_stats (process_message cfg w m st)) =
        messages_processed (processing_stats st)) \<and>
   (\<not> kafka_ok w \<longrightarrow>
      calls (process_message cfg w m st) =
        calls st @
        [KafkaProduce (m_topic m @ ''_processed'') (Payload (stamped w (m_topic m) m p))
           (m_key m) False] \<and>
      processing_errors (processing_stats (process_message cfg w m st)) =
        processing_errors (processing_stats st) + 1 \<and>
      messages_processed (processing_stats (process_message cfg w m st)) =
        messages_processed (processing_stats st))"
  using assms
  by (simp add: process_calls handle_calls process_message_cases sinks_ok_def count_error_def
      Let_def)

theorem fan_out_in_order_witness:
  "processor_result (example_world True False) example_message fresh =
     Inr (default_processor example_clock [''event_type'' \<mapsto> PStr ''purchase'']) \<and>
   enable_kafka_output both_sinks \<and> enable_kinesis_output both_sinks \<and>
   kafka_ok (example_world True False) \<and> \<not> kinesis_ok (example_world True False) \<and>
   map attempt (calls (process_message both_sinks (example_world True False) example_message fresh)) =
     [(Kafka, ''unknown_topic_processed'', True), (Kinesis, ''unknown_topic-processed'', False)] \<and>
   processing_errors (processing_stats
      (process_message both_sinks (example_world True False) example_message fresh)) = 1 \<and>
   \<not> kafka_ok (example_world False False) \<and>
   map attempt (calls (process_message both_sinks (example_world False False) example_message fresh)) =
     [(Kafka, ''unknown_topic_processed'', False)] \<and>
   processing_errors (processing_stats
      (process_message both_sinks (example_world False False) example_message fresh)) = 1"
  using fan_out_in_order [OF example_result [of True False],
          of both_sinks, OF both_sinks_sel(1) both_sinks_sel(2)]
        fan_out_in_order [OF example_result [of False False],
          of both_sinks, OF both_sinks_sel(1) both_sinks_sel(2)]
  by (simp add: example_result both_sinks_sel example_world_sel fresh_sel example_message_sel)

subsection \<open>Flushing the metrics buffer\<close>

text \<open>
  Claim C3, as stated, says that the buffer is empty after every flush. It does not
  hold: when the batch cannot be delivered, \<^verbatim>\<open>_flush_metrics_buffer\<close> logs the error
  and returns with the buffer as it was, so the record held before is still there.
\<close>

theorem failed_flush_keeps_buffer:
  "metrics_buffer buffered = [example_record] \<and>
   length (metrics_buffer
      (flush_metrics_buffer both_sinks False ''2024-01-01T00:02:00'' buffered)) = 1 \<and>
   example_record \<in> set (metrics_buffer
      (flush_metrics_buffer both_sinks False ''2024-01-01T00:02:00'' buffered))"
  by (simp add: flush_metrics_buffer_def buffered_sel both_sinks_sel Let_def)

text \<open>
  Claim C3, amended: a flush of a non-empty buffer with metrics output enabled makes one
  call to the broker carrying the whole buffer, in order, with its length as the count;
  when that call returns, the buffer is empty afterwards; when it raises, the buffer is
  left exactly as it was. With metrics output disabled the buffer is emptied and nothing
  is emitted. A flush of an empty buffer changes nothing.
\<close>

theorem flush_metrics_buffer_outcomes:
  "(metrics_buffer st \<noteq> [] \<and> enable_metrics_to_kafka cfg \<longrightarrow>
      calls (flush_metrics_buffer cfg flush_ok flushed_at st) =
        calls st @
        [KafkaProduce ''processing_metrics''
           (MetricsBatch (metrics_buffer st) flushed_at (length (metrics_buffer st)))
           None flush_ok]) \<and>
   (metrics_buffer st \<noteq> [] \<and> enable_metrics_to_kafka cfg \<and> flush_ok \<longrightarrow>
      metrics_buffer (flush_metrics_buffer cfg flush_ok flushed_at st) = []) \<and>
   (metrics_buffer st \<noteq> [] \<and> enable_metrics_to_kafka cfg \<and> \<not> flush_ok \<longrightarrow>
      metrics_buffer (flush_metrics_buffer cfg flush_ok flushed_at st) = metrics_buffer st) \<and>
   (\<not> enable_metrics_to_kafka cfg \<longrightarrow>
      metrics_buffer (flush_metrics_buffer cfg flush_ok flushed_at st) = [] \<and>
      calls (flush_metrics_buffer cfg flush_ok flushed_at st) = calls st) \<and>
   (metrics_buffer st = [] \<longrightarrow> flush_metrics_buffer cfg flush_ok flushed_at st = st)"
  by (simp add: flush_metrics_buffer_def Let_def)

theorem flush_metrics_buffer_outcomes_witness:
  "metrics_buffer buffered \<noteq> [] \<and> enable_metrics_to_kafka both_sinks \<and>
   calls (flush_metrics_buffer both_sinks True ''2024-01-01T00:02:00'' buffered) =
     [KafkaProduce ''processing_metrics''
        (MetricsBatch [example_record] ''2024-01-01T00:02:00'' 1) None True] \<and>
   metrics_buffer (flush_metrics_buffer both_sinks True ''2024-01-01T00:02:00'' buffered) = [] \<and>
   metrics_buffer (flush_metrics_buffer both_sinks False ''2024-01-01T00:02:00'' buffered) =
     [example_record] \<and>
   \<not> enable_metrics_to_kafka no_metrics_output \<and>
   metrics_buffer (flush_metrics_buffer no_metrics_output True ''2024-01-01T00:02:00'' buffered) = [] \<and>
   calls (flush_metrics_buffer no_metrics_output True ''2024-01-01T00:02:00'' buffered) = [] \<and>
   metrics_buffer fresh = [] \<and>
   flush_metrics_buffer both_sinks True ''2024-01-01T00:02:00'' fresh = fresh"
  using flush_metrics_buffer_outcomes [of buffered both_sinks True "''2024-01-01T00:02:00''"]
        flush_metrics_buffer_outcomes [of buffered both_sinks False "''2024-01-01T00:02:00''"]
        flush_metrics_buffer_outcomes [of buffered no_metrics_output True "''2024-01-01T00:02:00''"]
        flush_metrics_buffer_outcomes [of fresh both_sinks True "''2024-01-01T00:02:00''"]
  by (simp add: buffered_sel both_sinks_sel no_metrics_output_sel fresh_sel)

subsection \<open>The rate of a metrics cycle\<close>

text \<open>
  Claim C4: a metrics cycle that runs after its predecessor sets \<open>messages_per_second\<close> to
  \<open>messages_processed\<close> divided by the seconds elapsed since \<open>last_metrics_flush\<close>, the
  time of the previous cycle, and it resets \<open>messages_processed\<close> and \<open>processing_errors\<close>
  to zero and moves \<open>last_metrics_flush\<close> to the current time, so the next cycle counts
  and measures from here. The witness is the scenario of the specification: a cycle at
  time 100, then 1500 messages without error, then a cycle at time 110, which reports
  150 messages per second. The division is over the reals.
\<close>

theorem collect_metrics_rate_and_reset:
  assumes "last_metrics_flush st < now"
  shows "messages_per_second (processing_stats (collect_metrics cfg now ok fa st)) =
           real_of_int (messages_processed (processing_stats st)) / (now - last_metrics_flush st) \<and>
         messages_processed (processing_stats (collect_metrics cfg now ok fa st)) = 0 \<and>
         processing_errors (processing_stats (collect_metrics cfg now ok fa st)) = 0 \<and>
         last_metrics_flush (collect_metrics cfg now ok fa st) = now"
  using assms by (simp add: collect_metrics_def Let_def)

theorem collect_metrics_rate_and_reset_witness:
  "last_metrics_flush busy_interval < 110 \<and>
   messages_processed (processing_stats busy_interval) = 1500 \<and>
   processing_errors (processing_stats busy_interval) = 0 \<and>
   messages_per_second (processing_stats
      (collect_metrics both_sinks 110 True ''2024-01-01T00:01:50'' busy_interval)) = 150 \<and>
   messages_processed (processing_stats
      (collect_metrics both_sinks 110 True ''2024-01-01T00:01:50'' busy_interval)) = 0 \<and>
   processing_errors (processing_stats
      (collect_metrics both_sinks 110 True ''2024-01-01T00:01:50'' busy_interval)) = 0 \<and>
   last_metrics_flush
      (collect_metrics both_sinks 110 True ''2024-01-01T00:01:50'' busy_interval) = 110"
proof -
  have h: "last_metrics_flush busy_interval < 110"
    by (simp add: busy_interval_sel)
  show ?thesis
    using h collect_metrics_rate_and_reset
              [OF h, of both_sinks True "''2024-01-01T00:01:50''"]
    by (simp add: busy_interval_sel)
qed

subsection \<open>Amount categories\<close>

text \<open>
  Claim C5: \<^verbatim>\<open>_categorize_amount\<close> maps an amount to \<open>micro\<close> exactly when it is below 10,
  to \<open>small\<close> exactly when it is at least 10 and below 100, to \<open>medium\<close> exactly when it is
  at least 100 and below 1000, to \<open>large\<close> exactly when it is at least 1000 and below
  10000, and to \<open>enterprise\<close> exactly when it is at least 10000; the eight boundary
  values of the specification fall where it says.
\<close>

theorem categorize_amount_boundaries:
  "(categorize_amount a = ''micro'' \<longleftrightarrow> a < 10) \<and>
   (categorize_amount a = ''small'' \<longleftrightarrow> 10 \<le> a \<and> a < 100) \<and>
   (categorize_amount a = ''medium'' \<longleftrightarrow> 100 \<le> a \<and> a < 1000) \<and>
   (categorize_amount a = ''large'' \<longleftrightarrow> 1000 \<le> a \<and> a < 10000) \<and>
   (categorize_amount a = ''enterprise'' \<longleftrightarrow> 10000 \<le> a) \<and>
   categorize_amount 9.99 = ''micro'' \<and> categorize_amount 10 = ''small'' \<and>
   categorize_amount 99.99 = ''small'' \<and> categorize_amount 100 = ''medium'' \<and>
   categorize_amount 999.99 = ''medium'' \<and> categorize_amount 1000 = ''large'' \<and>
   categorize_amount 9999.99 = ''large'' \<and> categorize_amount 10000 = ''enterprise''"
  by (simp add: categorize_amount_def)

subsection \<open>The rolling window\<close>

text \<open>
  Claim C6: the window of processing times holds at most 1000 entries after any sequence
  of deliveries, metrics cycles and registrations, from a new processor and from any
  state whose window holds at most 1000. A message that is processed appends its
  duration and keeps the last 1000 entries; a message that fails leaves the window as it
  was.
\<close>

theorem processing_times_bounded:
  "length (processing_times (run cfg (init_processor now now_iso) evs)) \<le> 1000 \<and>
   (length (processing_times st) \<le> 1000 \<longrightarrow>
      length (processing_times (run cfg st evs)) \<le> 1000) \<and>
   (\<not> isl (processor_result w m st) \<and> sinks_ok cfg w \<longrightarrow>
      processing_times (process_message cfg w m st) =
        drop (length (processing_times st) + 1 - 1000)
          (processing_times st @ [end_time w - start_time w])) \<and>
   (isl (processor_result w m st) \<or> \<not> sinks_ok cfg w \<longrightarrow>
      processing_times (process_message cfg w m st) = processing_times st)"
proof -
  have "length (processing_times (init_processor now now_iso)) \<le> 1000"
    by (simp add: init_processor_def)
  then have "length (processing_times (run cfg (init_processor now now_iso) evs)) \<le> 1000"
    by (rule run_window)
  then show ?thesis
    by (auto simp: run_window process_times track_time_eq)
qed

theorem processing_times_bounded_witness:
  "length (processing_times full_window) = 1000 \<and>
   \<not> isl (processor_result (example_world True True) example_message full_window) \<and>
   sinks_ok both_sinks (example_world True True) \<and>
   processing_times
      (process_message both_sinks (example_world True True) example_message full_window) =
     replicate 999 0.5 @ [0.25] \<and>
   length (processing_times
      (run both_sinks full_window
         [Deliver (example_world True True) example_message,
          Deliver (example_world True True) example_message])) \<le> 1000 \<and>
   \<not> sinks_ok both_sinks (example_world False True) \<and>
   processing_times
      (process_message both_sinks (example_world False True) example_message full_window) =
     replicate 1000 0.5"
  using processing_times_bounded
          [where cfg = both_sinks and st = full_window
             and evs = "[Deliver (example_world True True) example_message,
                         Deliver (example_world True True) example_message]"
             and w = "example_world True True" and m = example_message]
        processing_times_bounded
          [where cfg = both_sinks and st = full_window
             and w = "example_world False True" and m = example_message]
  by (simp add: processor_result_def resolve_def full_window_sel sinks_ok_def example_world_sel
      both_sinks_sel)

subsection \<open>Choosing the processor\<close>

text \<open>
  Claim C7: for every topic, the processor chosen is the one registered for the topic
  when there is one and the default processor otherwise, and the default processor
  returns a payload on every input; a registration is found by the next lookup of its
  topic.
\<close>

theorem resolve_total:
  "(\<forall>p. procs t = Some p \<longrightarrow> resolve procs ck t = p) \<and>
   (procs t = None \<longrightarrow> resolve procs ck t = (\<lambda>v. Inr (default_processor ck v))) \<and>
   (procs t = None \<longrightarrow> \<not> isl (resolve procs ck t v)) \<and>
   resolve (processors (register_processor t q st)) ck t = q"
  by (simp add: resolve_def register_processor_def)

theorem resolve_total_witness:
  "processors registered ''users'' = Some (user_processor example_hash) \<and>
   resolve (processors registered) example_clock ''users'' = user_processor example_hash \<and>
   processors registered ''unknown_topic'' = None \<and>
   resolve (processors registered) example_clock ''unknown_topic'' =
     (\<lambda>v. Inr (default_processor example_clock v)) \<and>
   \<not> isl (resolve (processors registered) example_clock ''unknown_topic'' plain_payload)"
  using resolve_total [of "processors registered" "''users''" example_clock]
        resolve_total [of "processors registered" "''unknown_topic''" example_clock plain_payload]
  by (simp add: registered_sel)

subsection \<open>Reapplying the default processor\<close>

text \<open>
  Claim C8: applying the default processor to its own output, at any later time, leaves
  \<open>event_category\<close> and \<open>amount_category\<close> as the first application set them.
\<close>

theorem default_processor_idempotent:
  "default_processor ck2 (default_processor ck1 d) ''event_category'' =
     default_processor ck1 d ''event_category'' \<and>
   default_processor ck2 (default_processor ck1 d) ''amount_category'' =
     default_processor ck1 d ''amount_category''"
proof (cases "default_enrich ck1 d")
  case (Inl e)
  then have "isl (default_enrich ck1 d)" by simp
  then have "isl (default_enrich ck2 d)" by (simp add: enrich_fails_iff)
  then show ?thesis using Inl by (auto simp: default_processor_def split: sum.splits)
next
  case first: (Inr p)
  show ?thesis
  proof (cases "default_enrich ck2 p")
    case (Inl e)
    then show ?thesis using first by (simp add: default_processor_def)
  next
    case second: (Inr q)
    from enrich_event_category[OF second] enrich_amount_category[OF second]
      enrich_event_category[OF first] enrich_amount_category[OF first] enrich_sources[OF first]
    show ?thesis using first second
      by (auto simp: default_processor_def split: option.splits sum.splits)
  qed
qed

theorem default_processor_idempotent_witness:
  "default_processor example_clock (default_processor example_clock order_payload)
     ''event_category'' = Some (PStr ''transaction'') \<and>
   default_processor example_clock (default_processor example_clock order_payload)
     ''amount_category'' = Some (PStr ''large'')"
  using default_processor_idempotent [of example_clock example_clock order_payload]
  by (simp add: order_payload_categories)

subsection \<open>The average of a metrics cycle\<close>

text \<open>
  Claim C9: a metrics cycle with an empty window leaves \<open>avg_processing_time\<close> as it
  was; with a non-empty window it sets \<open>avg_processing_time\<close> to the sum of the samples
  divided by their number.
\<close>

theorem collect_metrics_average:
  "(processing_times st = [] \<longrightarrow>
      avg_processing_time (processing_stats (collect_metrics cfg now ok fa st)) =
        avg_processing_time (processing_stats st)) \<and>
   (processing_times st \<noteq> [] \<longrightarrow>
      avg_processing_time (processing_stats (collect_metrics cfg now ok fa st)) =
        sum_list (processing_times st) / real (length (processing_times st)))"
  by (simp add: collect_metrics_def Let_def mean_def)

theorem collect_metrics_average_witness:
  "processing_times sampled \<noteq> [] \<and>
   avg_processing_time (processing_stats
      (collect_metrics both_sinks 110 True ''2024-01-01T00:01:50'' sampled)) = 0.3 \<and>
   processing_times
      (collect_metrics both_sinks 110 True ''2024-01-01T00:01:50'' sampled) \<noteq> [] \<and>
   avg_processing_time (processing_stats
      (collect_metrics both_sinks 120 True ''2024-01-01T00:02:00''
         (collect_metrics both_sinks 110 True ''2024-01-01T00:01:50'' sampled))) = 0.3 \<and>
   processing_times fresh = [] \<and>
   avg_processing_time (processing_stats
      (collect_metrics both_sinks 110 True ''2024-01-01T00:01:50'' fresh)) = 0"
  using collect_metrics_average [of sampled both_sinks 110 True "''2024-01-01T00:01:50''"]
        collect_metrics_average
          [of "collect_metrics both_sinks 110 True ''2024-01-01T00:01:50'' sampled"
              both_sinks 120 True "''2024-01-01T00:02:00''"]
        collect_metrics_average [of fresh both_sinks 110 True "''2024-01-01T00:01:50''"]
  by (simp add: sampled_sel fresh_sel)

subsection \<open>The email of a user\<close>

text \<open>
  Claim C10: whenever \<^verbatim>\<open>user_processor\<close> returns a payload for an input that has an
  \<open>email\<close> field, the email is a string, the output has no \<open>email\<close> field, and its
  \<open>email_domain\<close> is the part of the email after its last \<open>@\<close> (the whole email when it
  has no \<open>@\<close>). For an input without \<open>email\<close> the output has no \<open>email\<close> and its
  \<open>email_domain\<close> field is as in the input. The processor returns whenever \<open>user_id\<close> is
  absent or hashable and \<open>email\<close> is absent or a string.
\<close>

theorem user_processor_email_domain:
  "(\<forall>out v. user_processor h d = Inr out \<and> d ''email'' = Some v \<longrightarrow>
      out ''email'' = None \<and>
      (\<exists>em dom. v = PStr em \<and> out ''email_domain'' = Some (PStr dom) \<and>
         CHR ''@'' \<notin> set dom \<and>
         ((\<exists>pre. em = pre @ CHR ''@'' # dom) \<or> (CHR ''@'' \<notin> set em \<and> dom = em)))) \<and>
   (\<forall>out. user_processor h d = Inr out \<and> d ''email'' = None \<longrightarrow>
      out ''email'' = None \<and> out ''email_domain'' = d ''email_domain'') \<and>
   ((d ''user_id'' = None \<or> (\<exists>u. d ''user_id'' = Some u \<and> \<not> isl (determine_user_segment h u))) \<and>
    (d ''email'' = None \<or> (\<exists>em. d ''email'' = Some (PStr em))) \<longrightarrow>
      \<not> isl (user_processor h d))"
proof -
  have a: "out ''email'' = None \<and>
           (\<exists>em dom. v = PStr em \<and> out ''email_domain'' = Some (PStr dom) \<and>
              CHR ''@'' \<notin> set dom \<and>
              ((\<exists>pre. em = pre @ CHR ''@'' # dom) \<or> (CHR ''@'' \<notin> set em \<and> dom = em)))"
    if r: "user_processor h d = Inr out" and e: "d ''email'' = Some v" for out v
  proof -
    from user_processor_email_str[OF r e] obtain em where
      em: "v = PStr em" "out ''email'' = None"
        "out ''email_domain'' = Some (PStr (last (split CHR ''@'' em)))"
      by blast
    from split_domain[of "CHR ''@''" em] em show ?thesis by blast
  qed
  have b: "out ''email'' = None \<and> out ''email_domain'' = d ''email_domain''"
    if "user_processor h d = Inr out" and "d ''email'' = None" for out
    using that by (rule user_processor_no_email)
  show ?thesis
    using a b user_processor_returns[of d h] by blast
qed

lemma payload_sel:
  "user_payload ''email'' = Some (PStr ''alice@example.com'')"
  "user_payload ''user_id'' = Some (PInt 7)"
  "plain_payload ''email'' = None" "plain_payload ''user_id'' = None"
  "plain_payload ''email_domain'' = None"
  by (simp_all add: user_payload_def plain_payload_def)

theorem user_processor_email_domain_witness:
  "user_payload ''email'' = Some (PStr ''alice@example.com'') \<and>
   user_processor example_hash user_payload =
     Inr [''user_id'' \<mapsto> PInt 7, ''user_segment'' \<mapsto> PStr ''gold'',
          ''email_domain'' \<mapsto> PStr ''example.com'',
          ''processed_by'' \<mapsto> PStr ''user_processor''] \<and>
   plain_payload ''email'' = None \<and>
   user_processor example_hash plain_payload =
     Inr [''name'' \<mapsto> PStr ''bob'', ''processed_by'' \<mapsto> PStr ''user_processor'']"
  using user_processor_email_domain [of example_hash user_payload]
        user_processor_email_domain [of example_hash plain_payload]
  by (simp add: user_payload_result plain_payload_result payload_sel)


end
